theory Spec2Isabelle
  imports Main
begin

section \<open>Spreadsheet rows to a KML tree: the conversion loop of \<open>adequacaoequatorial.py\<close>\<close>

text \<open>
  The program reads a spreadsheet into a data frame, rejects it when it has fewer than nine
  columns, and otherwise walks the rows once, building an ElementTree: a \<open>kml\<close> root, one
  \<open>Document\<close>, one \<open>Folder\<close> per distinct value of column F and one \<open>Placemark\<close> per row
  whose coordinates convert with \<open>float()\<close>. This theory embeds that loop (lines 36 to 95),
  with the cast \<open>df.iterrows()\<close> applies to the cells before the loop sees them, and the
  statistics computed from the loop state (lines 130 to 135). Rendering the finished tree
  to text (lines 98 to 100) is done by the XML libraries and is not part of the model; the
  result of a run is the tree handed to them. The calls that drive the page (upload, progress
  bar, status text, download button) neither read nor change the tree and are left out.
\<close>

subsection \<open>Cell values and the Python primitives applied to them\<close>

text \<open>
  A Python float is either a finite binary64 value or one of the three special values. The
  finite values are kept abstract (type \<open>'f\<close>): the loop never computes with them, it only
  converts and prints them.
\<close>

datatype 'f pyfloat = Fin 'f | NaN | PosInf | NegInf

text \<open>
  The values a cell of a row can hold after \<open>pd.read_excel\<close>: a float (an empty spreadsheet
  cell arrives as the float NaN), an integer, a boolean, a string, \<open>None\<close>, \<open>NaT\<close>, or
  another object such as a timestamp, which is represented by its \<open>str()\<close> text.
\<close>

datatype 'f cell =
    CFloat "'f pyfloat"
  | CInt int
  | CBool bool
  | CStr string
  | CNone
  | CNaT
  | CObj string

datatype exn = ValueError | TypeError | IndexError | KeyError

text \<open>
  The three float primitives that depend on the binary64 format are parameters of the model:
  \<open>repr_fin\<close> is \<open>repr\<close> on a finite float, \<open>float_of_int\<close> is \<open>float()\<close> on an integer
  (integers of a spreadsheet are in range, so it never overflows) and \<open>float_of_str\<close> is
  \<open>float()\<close> on a string, \<open>None\<close> when it raises ValueError.
\<close>

record 'f float_ops =
  repr_fin :: "'f \<Rightarrow> string"
  float_of_int :: "int \<Rightarrow> 'f"
  float_of_str :: "string \<Rightarrow> 'f pyfloat option"

definition digit_chars :: string where
  "digit_chars = ''0123456789''"

fun show_nat :: "nat \<Rightarrow> string" where
  "show_nat n =
     (if n < 10 then [digit_chars ! n] else show_nat (n div 10) @ [digit_chars ! (n mod 10)])"

declare show_nat.simps [simp del]

definition show_int :: "int \<Rightarrow> string" where
  "show_int i = (if i < 0 then ''-'' @ show_nat (nat (- i)) else show_nat (nat i))"

fun float_str :: "'f float_ops \<Rightarrow> 'f pyfloat \<Rightarrow> string" where
  "float_str ops (Fin x) = repr_fin ops x"
| "float_str ops NaN = ''nan''"
| "float_str ops PosInf = ''inf''"
| "float_str ops NegInf = ''-inf''"

text \<open>\<open>str(x)\<close> on a cell value.\<close>

fun py_str :: "'f float_ops \<Rightarrow> 'f cell \<Rightarrow> string" where
  "py_str ops (CFloat x) = float_str ops x"
| "py_str ops (CInt i) = show_int i"
| "py_str ops (CBool b) = (if b then ''True'' else ''False'')"
| "py_str ops (CStr s) = s"
| "py_str ops CNone = ''None''"
| "py_str ops CNaT = ''NaT''"
| "py_str ops (CObj s) = s"

text \<open>\<open>float(x)\<close> on a cell value; it raises ValueError or TypeError, or returns a float.\<close>

fun py_float :: "'f float_ops \<Rightarrow> 'f cell \<Rightarrow> exn + 'f pyfloat" where
  "py_float ops (CFloat x) = Inr x"
| "py_float ops (CInt i) = Inr (Fin (float_of_int ops i))"
| "py_float ops (CBool b) = Inr (Fin (float_of_int ops (if b then 1 else 0)))"
| "py_float ops (CStr s) =
     (case float_of_str ops s of None \<Rightarrow> Inl ValueError | Some x \<Rightarrow> Inr x)"
| "py_float ops CNone = Inl TypeError"
| "py_float ops CNaT = Inl TypeError"
| "py_float ops (CObj s) = Inl TypeError"

text \<open>\<open>pd.notna(x)\<close>: false exactly on NaN, \<open>None\<close> and \<open>NaT\<close>.\<close>

fun notna :: "'f cell \<Rightarrow> bool" where
  "notna (CFloat NaN) = False"
| "notna CNone = False"
| "notna CNaT = False"
| "notna _ = True"

text \<open>\<open>row.iloc[k]\<close>: positional access, IndexError out of range.\<close>

definition iloc :: "'a list \<Rightarrow> nat \<Rightarrow> exn + 'a" where
  "iloc row k = (if k < length row then Inr (row ! k) else Inl IndexError)"

subsection \<open>The element tree\<close>

datatype xml =
  Element (tag: string) (attrib: "(string \<times> string) list") (etext: "string option")
    (children: "xml list")

text \<open>
  \<open>ET.SubElement(parent, ...)\<close> appends the new element to the children of \<open>parent\<close>. The
  source fills the new element in after attaching it; the model attaches it filled in, which
  gives the same tree because the element is reachable through its parent only.
\<close>

definition SubElement :: "xml \<Rightarrow> xml \<Rightarrow> xml" where
  "SubElement parent child =
     Element (tag parent) (attrib parent) (etext parent) (children parent @ [child])"

subsection \<open>One row: lines 60 to 71\<close>

record 'f point =
  nome :: string
  lat :: "'f pyfloat"
  lon :: "'f pyfloat"
  folder_name :: string
  description :: string

text \<open>
  The five positional reads and the two conversions. \<open>Inr None\<close> is the \<open>continue\<close> of
  line 71; \<open>Inl\<close> is an exception that leaves the loop.
\<close>

definition extract_point :: "'f float_ops \<Rightarrow> nat \<Rightarrow> 'f cell list \<Rightarrow> exn + 'f point option" where
  "extract_point ops index row =
     (case iloc row 1 of Inl e \<Rightarrow> Inl e | Inr c1 \<Rightarrow>
     (case iloc row 2 of Inl e \<Rightarrow> Inl e | Inr c2 \<Rightarrow>
     (case iloc row 3 of Inl e \<Rightarrow> Inl e | Inr c3 \<Rightarrow>
     (case iloc row 5 of Inl e \<Rightarrow> Inl e | Inr c5 \<Rightarrow>
     (case iloc row 8 of Inl e \<Rightarrow> Inl e | Inr c8 \<Rightarrow>
        (let nm = (if notna c1 then py_str ops c1 else ''Ponto_'' @ show_nat (index + 1));
             fn = (if notna c5 then py_str ops c5 else ''Geral'');
             ds = (if notna c8 then py_str ops c8 else '''')
         in (case py_float ops c2 of Inl e \<Rightarrow> Inr None | Inr la \<Rightarrow>
            (case py_float ops c3 of Inl e \<Rightarrow> Inr None | Inr lo \<Rightarrow>
              Inr (Some \<lparr>nome = nm, lat = la, lon = lo, folder_name = fn,
                         description = ds\<rparr>)))))))))"

subsection \<open>Adding a record to the tree: lines 73 to 95\<close>

text \<open>
  The loop state: the children of the \<open>Document\<close> element, and the dictionary \<open>folders\<close>.
  The dictionary holds references to folder elements that are children of the document; a
  reference is modelled as the position of the folder among those children. The dictionary
  is an association list in insertion order, which is the order \<open>folders.keys()\<close> reports.
\<close>

record state =
  doc :: "xml list"
  folders :: "(string \<times> nat) list"

definition init_state :: state where
  "init_state = \<lparr>doc = [], folders = []\<rparr>"

definition placemark :: "'f float_ops \<Rightarrow> 'f point \<Rightarrow> xml" where
  "placemark ops p =
     Element ''Placemark'' [] None
       ([Element ''name'' [] (Some (nome p)) []] @
        (if description p \<noteq> '''' then [Element ''description'' [] (Some (description p)) []]
         else []) @
        [Element ''Point'' [] None
           [Element ''coordinates'' []
              (Some (float_str ops (lon p) @ '','' @ float_str ops (lat p) @ '',0'')) []]])"

definition new_folder :: "string \<Rightarrow> xml" where
  "new_folder fn = Element ''Folder'' [] None [Element ''name'' [] (Some fn) []]"

definition add_record :: "'f float_ops \<Rightarrow> 'f point \<Rightarrow> state \<Rightarrow> exn + state" where
  "add_record ops p st =
     (let fn = folder_name p;
          st1 = (if map_of (folders st) fn = None
                 then \<lparr>doc = doc st @ [new_folder fn],
                       folders = folders st @ [(fn, length (doc st))]\<rparr>
                 else st)
      in case map_of (folders st1) fn of
           None \<Rightarrow> Inl KeyError
         | Some i \<Rightarrow>
             Inr (st1\<lparr>doc := (doc st1)[i := SubElement (doc st1 ! i) (placemark ops p)]\<rparr>))"

subsection \<open>The loop and the run\<close>

definition body :: "'f float_ops \<Rightarrow> nat \<Rightarrow> 'f cell list \<Rightarrow> state \<Rightarrow> exn + state" where
  "body ops index row st =
     (case extract_point ops index row of
        Inl e \<Rightarrow> Inl e
      | Inr None \<Rightarrow> Inr st
      | Inr (Some p) \<Rightarrow> add_record ops p st)"

text \<open>
  The body run over the rows \<open>df.iterrows()\<close> yields, the index running from its first value
  upwards.
\<close>

fun loop :: "'f float_ops \<Rightarrow> nat \<Rightarrow> 'f cell list list \<Rightarrow> state \<Rightarrow> exn + state" where
  "loop ops index [] st = Inr st"
| "loop ops index (row # rest) st =
     (case body ops index row st of
        Inl e \<Rightarrow> Inl e
      | Inr st' \<Rightarrow> loop ops (index + 1) rest st')"

text \<open>
  A data frame: \<open>ncols\<close> is \<open>len(df.columns)\<close>, \<open>rows\<close> the rows in index order. In a data
  frame every row has \<open>ncols\<close> cells.
\<close>

record 'f table =
  ncols :: nat
  rows :: "'f cell list list"

definition rectangular :: "'f table \<Rightarrow> bool" where
  "rectangular t = list_all (\<lambda>row. length row = ncols t) (rows t)"

text \<open>
  \<open>df.iterrows()\<close> (line 53) builds every row from \<open>df.values\<close>, the cells of the whole
  frame cast to one common dtype. When every column is numeric and at least one of them is
  float64, that dtype is float64, and every int64 cell reaches the loop as a float. In a frame
  of int64 columns only, and in a frame with a column of any other kind (the common dtype is
  then \<open>object\<close>), the cells reach the loop as they are. A numeric column holds cells of
  one kind, so the test on the columns is a test on the cells.
\<close>

definition numeric :: "'f cell \<Rightarrow> bool" where
  "numeric c = (case c of CFloat _ \<Rightarrow> True | CInt _ \<Rightarrow> True | _ \<Rightarrow> False)"

definition float64 :: "'f cell \<Rightarrow> bool" where
  "float64 c = (case c of CFloat _ \<Rightarrow> True | _ \<Rightarrow> False)"

definition upcast :: "'f float_ops \<Rightarrow> 'f cell \<Rightarrow> 'f cell" where
  "upcast ops c = (case c of CInt i \<Rightarrow> CFloat (Fin (float_of_int ops i)) | _ \<Rightarrow> c)"

definition iterrows :: "'f float_ops \<Rightarrow> 'f table \<Rightarrow> 'f cell list list" where
  "iterrows ops df =
     (if list_all (list_all numeric) (rows df) \<and> list_ex (list_ex float64) (rows df)
      then map (map (upcast ops)) (rows df)
      else rows df)"

record stats =
  total_rows :: nat
  folder_count :: nat
  folder_names :: "string list"

text \<open>
  What a run ends in: the column check fails (line 37, then \<open>return\<close>), an exception reaches
  the handler of line 137, or the tree is complete and is rendered and offered for download
  together with the statistics.
\<close>

datatype outcome = Rejected | Failed exn | Generated xml stats

definition kml_root :: "xml list \<Rightarrow> xml" where
  "kml_root fs =
     Element ''kml'' [(''xmlns'', ''http://www.opengis.net/kml/2.2'')] None
       [Element ''Document'' [] None fs]"

definition main :: "'f float_ops \<Rightarrow> 'f table \<Rightarrow> outcome" where
  "main ops t =
     (if ncols t < 9 then Rejected
      else case loop ops 0 (iterrows ops t) init_state of
             Inl e \<Rightarrow> Failed e
           | Inr st \<Rightarrow>
               Generated (kml_root (doc st))
                 \<lparr>total_rows = length (rows t),
                  folder_count = length (folders st),
                  folder_names = map fst (folders st)\<rparr>)"

subsection \<open>Reading the tree\<close>

text \<open>
  The accessors the properties are stated with: \<open>findall\<close> and \<open>findtext\<close> are those of
  ElementTree on direct children; the others name the places of the KML tree.
\<close>

definition findall :: "string \<Rightarrow> xml \<Rightarrow> xml list" where
  "findall t e = filter (\<lambda>c. tag c = t) (children e)"

definition findtext :: "string \<Rightarrow> xml \<Rightarrow> string option" where
  "findtext t e = (case findall t e of [] \<Rightarrow> None | c # _ \<Rightarrow> etext c)"

definition folders_of :: "xml \<Rightarrow> xml list" where
  "folders_of kml = concat (map (findall ''Folder'') (findall ''Document'' kml))"

definition placemarks_of :: "xml \<Rightarrow> xml list" where
  "placemarks_of folder = findall ''Placemark'' folder"

definition count_placemarks :: "xml \<Rightarrow> nat" where
  "count_placemarks kml = sum_list (map (\<lambda>f. length (placemarks_of f)) (folders_of kml))"

definition coordinates_text :: "xml \<Rightarrow> string option" where
  "coordinates_text pm =
     (case findall ''Point'' pm of [] \<Rightarrow> None | pt # _ \<Rightarrow> findtext ''coordinates'' pt)"

definition has_description :: "xml \<Rightarrow> bool" where
  "has_description pm = (findall ''description'' pm \<noteq> [])"

subsection \<open>The test of the code and the notions of the specification\<close>

text \<open>
  The test lines 67 to 71 apply to a row: \<open>float()\<close> returns on the cells at positions 2
  and 3. It is the test of the code, not the validation of the specification: \<open>float()\<close>
  returns on NaN and on the infinities too.
\<close>

definition converts :: "'f float_ops \<Rightarrow> 'f cell \<Rightarrow> bool" where
  "converts ops c = (case py_float ops c of Inl _ \<Rightarrow> False | Inr _ \<Rightarrow> True)"

definition coords_parse :: "'f float_ops \<Rightarrow> 'f cell list \<Rightarrow> bool" where
  "coords_parse ops row =
     (case iloc row 2 of Inl _ \<Rightarrow> False | Inr c2 \<Rightarrow>
     (case iloc row 3 of Inl _ \<Rightarrow> False | Inr c3 \<Rightarrow> converts ops c2 \<and> converts ops c3))"

text \<open>
  The validation of the specification: latitude and longitude are both finite numbers.
\<close>

definition finite_number :: "'f float_ops \<Rightarrow> 'f cell \<Rightarrow> bool" where
  "finite_number ops c = (case py_float ops c of Inr (Fin _) \<Rightarrow> True | _ \<Rightarrow> False)"

definition finite_coords :: "'f float_ops \<Rightarrow> 'f cell list \<Rightarrow> bool" where
  "finite_coords ops row =
     (case iloc row 2 of Inl _ \<Rightarrow> False | Inr c2 \<Rightarrow>
     (case iloc row 3 of Inl _ \<Rightarrow> False | Inr c3 \<Rightarrow>
        finite_number ops c2 \<and> finite_number ops c3))"

text \<open>
  The records the loop makes of a list of rows, in row order; \<open>index\<close> is the index of the
  first row.
\<close>

fun valid_points :: "'f float_ops \<Rightarrow> nat \<Rightarrow> 'f cell list list \<Rightarrow> 'f point list" where
  "valid_points ops index [] = []"
| "valid_points ops index (row # rest) =
     (case extract_point ops index row of
        Inr (Some p) \<Rightarrow> p # valid_points ops (index + 1) rest
      | _ \<Rightarrow> valid_points ops (index + 1) rest)"

text \<open>The distinct elements of a list in the order of their first appearance.\<close>

fun first_seen :: "'a list \<Rightarrow> 'a list" where
  "first_seen [] = []"
| "first_seen (x # xs) = x # removeAll x (first_seen xs)"

text \<open>Two rows agree on the columns the loop reads.\<close>

definition agree_used :: "'f cell list \<Rightarrow> 'f cell list \<Rightarrow> bool" where
  "agree_used r1 r2 = list_all (\<lambda>k. iloc r1 k = iloc r2 k) [1, 2, 3, 5, 8]"

text \<open>
  The tree the specification describes for a sequence of records: one folder per distinct
  folder name, in first-seen order, holding the placemarks of the records with that name in
  their order; and the loop state that goes with it.
\<close>

definition folder_elem :: "'f float_ops \<Rightarrow> string \<Rightarrow> 'f point list \<Rightarrow> xml" where
  "folder_elem ops n ps =
     Element ''Folder'' [] None (Element ''name'' [] (Some n) [] # map (placemark ops) ps)"

definition grouped :: "'f float_ops \<Rightarrow> 'f point list \<Rightarrow> state" where
  "grouped ops ps =
     (let names = first_seen (map folder_name ps)
      in \<lparr>doc = map (\<lambda>n. folder_elem ops n (filter (\<lambda>p. folder_name p = n) ps)) names,
          folders = zip names [0..<length names]\<rparr>)"

subsection \<open>A concrete instance and a sample table\<close>

text \<open>
  An instance of the float primitives over whole-number floats, the float \<open>n.0\<close> being the
  integer \<open>n\<close>: \<open>repr\<close> prints \<open>n.0\<close>, and \<open>float()\<close> on a string accepts an optional minus
  sign followed by decimal digits. Python accepts more spellings of a float; none of them
  occurs in the sample rows, which the instance serves to evaluate.
\<close>

definition read_nat :: "string \<Rightarrow> nat option" where
  "read_nat s =
     (if s \<noteq> [] \<and> list_all (\<lambda>c. c \<in> set digit_chars) s
      then Some (foldl (\<lambda>a c. 10 * a + (of_char c - 48)) 0 s) else None)"

definition whole_of_str :: "string \<Rightarrow> int pyfloat option" where
  "whole_of_str s =
     (case s of
        CHR ''-'' # r \<Rightarrow> map_option (\<lambda>n. Fin (- int n)) (read_nat r)
      | _ \<Rightarrow> map_option (\<lambda>n. Fin (int n)) (read_nat s))"

definition whole_ops :: "int float_ops" where
  "whole_ops = \<lparr>repr_fin = (\<lambda>i. show_int i @ ''.0''), float_of_int = (\<lambda>i. i),
                float_of_str = whole_of_str\<rparr>"

text \<open>
  Four rows of nine columns: the second has the text \<open>N/A\<close> as latitude, the third has
  its name, folder and description cells empty.
\<close>

definition sample_rows :: "int cell list list" where
  "sample_rows =
     [[CInt 1, CStr ''Pt A'', CFloat (Fin (- 23)), CFloat (Fin (- 46)), CNone, CStr ''SP'',
       CNone, CNone, CStr ''desc1''],
      [CInt 2, CStr ''Pt B'', CStr ''N/A'', CFloat (Fin (- 43)), CNone, CStr ''RJ'',
       CNone, CNone, CFloat NaN],
      [CInt 3, CFloat NaN, CFloat (Fin (- 15)), CFloat (Fin (- 47)), CNone, CFloat NaN,
       CNone, CNone, CFloat NaN],
      [CInt 4, CStr ''Pt D'', CFloat (Fin (- 22)), CFloat (Fin (- 43)), CNone, CStr ''SP'',
       CNone, CNone, CStr ''desc4'']]"

definition sample_table :: "int table" where
  "sample_table = \<lparr>ncols = 9, rows = sample_rows\<rparr>"



section \<open>Properties\<close>

subsection \<open>First-seen order and the folder dictionary\<close>

lemma set_first_seen [simp]: "set (first_seen xs) = set xs"
  by (induction xs) auto

lemma distinct_first_seen [simp]: "distinct (first_seen xs)"
  by (induction xs) (auto simp: distinct_removeAll)

lemma first_seen_snoc:
  "first_seen (xs @ [y]) = (if y \<in> set xs then first_seen xs else first_seen xs @ [y])"
  by (induction xs) auto

lemma map_of_zip_upt_old:
  "distinct ns \<Longrightarrow> i < length ns \<Longrightarrow> map_of (zip ns [0..<length ns]) (ns ! i) = Some i"
proof -
  assume d: "distinct ns" and i: "i < length ns"
  have "(ns ! i, i) \<in> set (zip ns [0..<length ns])"
    using i by (auto simp: set_zip)
  moreover have "distinct (map fst (zip ns [0..<length ns]))"
    using d by simp
  ultimately show ?thesis by (rule_tac map_of_is_SomeI)
qed

lemma add_record_grouped:
  "add_record ops p (grouped ops ps) = Inr (grouped ops (ps @ [p]))"
proof -
  define fn where "fn = folder_name p"
  define ns where "ns = first_seen (map folder_name ps)"
  define ns' where "ns' = first_seen (map folder_name (ps @ [p]))"
  define D where "D = map (\<lambda>n. folder_elem ops n (filter (\<lambda>q. folder_name q = n) ps)) ns"
  define D' where
    "D' = map (\<lambda>n. folder_elem ops n (filter (\<lambda>q. folder_name q = n) (ps @ [p]))) ns'"
  define F where "F = zip ns [0..<length ns]"
  define F' where "F' = zip ns' [0..<length ns']"
  have g: "grouped ops ps = \<lparr>doc = D, folders = F\<rparr>"
    unfolding grouped_def Let_def D_def F_def ns_def by (rule refl)
  have g': "grouped ops (ps @ [p]) = \<lparr>doc = D', folders = F'\<rparr>"
    unfolding grouped_def Let_def D'_def F'_def ns'_def by (rule refl)
  have dist: "distinct ns" by (simp add: ns_def)
  have lenD: "length D = length ns" by (simp add: D_def)
  have nthD: "\<And>j. j < length ns \<Longrightarrow>
      D ! j = folder_elem ops (ns ! j) (filter (\<lambda>q. folder_name q = ns ! j) ps)"
    by (simp add: D_def)
  show ?thesis
  proof (cases "fn \<in> set ns")
    case True
    then obtain i where i: "i < length ns" "ns ! i = fn"
      by (meson in_set_conv_nth)
    have look: "map_of F fn = Some i"
      using map_of_zip_upt_old[OF dist i(1)] i(2) by (simp add: F_def)
    have names: "ns' = ns"
      using True by (simp add: ns'_def ns_def fn_def first_seen_snoc)
    have upd: "D[i := SubElement (D ! i) (placemark ops p)] = D'"
    proof (rule nth_equalityI)
      show "length (D[i := SubElement (D ! i) (placemark ops p)]) = length D'"
        by (simp add: D_def D'_def names)
    next
      fix j
      assume "j < length (D[i := SubElement (D ! i) (placemark ops p)])"
      then have j: "j < length ns" by (simp add: lenD)
      have nthD': "D' ! j =
          folder_elem ops (ns ! j) (filter (\<lambda>q. folder_name q = ns ! j) (ps @ [p]))"
        using j by (simp add: D'_def names)
      show "D[i := SubElement (D ! i) (placemark ops p)] ! j = D' ! j"
      proof (cases "j = i")
        case True
        then show ?thesis
          using i nthD' by (simp add: lenD nthD folder_elem_def SubElement_def fn_def)
      next
        case False
        then have "ns ! j \<noteq> fn"
          using i j dist by (metis nth_eq_iff_index_eq)
        then show ?thesis
          using False j by (simp add: nthD nthD' fn_def)
      qed
    qed
    have "add_record ops p \<lparr>doc = D, folders = F\<rparr> = Inr \<lparr>doc = D', folders = F\<rparr>"
      by (simp add: add_record_def Let_def look upd flip: fn_def)
    then show ?thesis by (simp add: g g' F_def F'_def names)
  next
    case False
    have names: "ns' = ns @ [fn]"
      using False by (simp add: ns'_def ns_def fn_def first_seen_snoc)
    have none: "map_of F fn = None"
      using False by (simp add: F_def)
    have F': "F' = F @ [(fn, length D)]"
      by (simp add: F'_def F_def names lenD)
    have look: "([fn \<mapsto> length D] ++ map_of F) fn = Some (length D)"
      by (simp add: map_add_def none)
    have nofilter: "filter (\<lambda>q. folder_name q = fn) ps = []"
    proof -
      have "\<forall>q\<in>set ps. folder_name q \<noteq> fn"
        using False by (auto simp: ns_def)
      then show ?thesis by (simp add: filter_empty_conv)
    qed
    have old: "map (\<lambda>n. folder_elem ops n (filter (\<lambda>q. folder_name q = n) (ps @ [p]))) ns = D"
      unfolding D_def using False by (intro map_cong) (auto simp: fn_def)
    have last: "filter (\<lambda>q. folder_name q = fn) (ps @ [p]) = [p]"
      by (simp add: nofilter) (simp add: fn_def)
    have "D' = map (\<lambda>n. folder_elem ops n (filter (\<lambda>q. folder_name q = n) (ps @ [p]))) ns @
               [folder_elem ops fn (filter (\<lambda>q. folder_name q = fn) (ps @ [p]))]"
      unfolding D'_def names by (simp only: map_append list.map)
    then have "D' = D @ [folder_elem ops fn [p]]"
      by (simp only: old last)
    then have upd: "D @ [SubElement (new_folder fn) (placemark ops p)] = D'"
      by (simp add: new_folder_def folder_elem_def SubElement_def)
    have "add_record ops p \<lparr>doc = D, folders = F\<rparr> = Inr \<lparr>doc = D', folders = F'\<rparr>"
      by (simp add: add_record_def Let_def none look upd F' flip: fn_def)
    then show ?thesis by (simp add: g g')
  qed
qed

subsection \<open>Rows of at least nine cells\<close>

lemma iloc_in_range: "k < length row \<Longrightarrow> iloc row k = Inr (row ! k)"
  by (simp add: iloc_def)

lemma coords_parse_iff:
  "9 \<le> length row \<Longrightarrow>
     coords_parse ops row =
       ((\<exists>la. py_float ops (row ! 2) = Inr la) \<and> (\<exists>lo. py_float ops (row ! 3) = Inr lo))"
  by (auto simp: coords_parse_def converts_def iloc_in_range split: sum.splits)

lemma extract_point_skip:
  "9 \<le> length row \<Longrightarrow> \<not> coords_parse ops row \<Longrightarrow> extract_point ops i row = Inr None"
  by (auto simp: coords_parse_iff extract_point_def iloc_in_range Let_def split: sum.splits)

lemma extract_point_some:
  "9 \<le> length row \<Longrightarrow> py_float ops (row ! 2) = Inr la \<Longrightarrow> py_float ops (row ! 3) = Inr lo \<Longrightarrow>
     extract_point ops i row =
       Inr (Some \<lparr>nome = (if notna (row ! 1) then py_str ops (row ! 1)
                          else ''Ponto_'' @ show_nat (i + 1)),
                  lat = la, lon = lo,
                  folder_name = (if notna (row ! 5) then py_str ops (row ! 5) else ''Geral''),
                  description = (if notna (row ! 8) then py_str ops (row ! 8) else '''')\<rparr>)"
  by (simp add: extract_point_def iloc_in_range Let_def)

lemma extract_point_cases:
  "9 \<le> length row \<Longrightarrow>
     (coords_parse ops row \<and> (\<exists>p. extract_point ops i row = Inr (Some p))) \<or>
     (\<not> coords_parse ops row \<and> extract_point ops i row = Inr None)"
proof (cases "coords_parse ops row")
  case True
  assume len: "9 \<le> length row"
  from True obtain la lo where "py_float ops (row ! 2) = Inr la" "py_float ops (row ! 3) = Inr lo"
    using coords_parse_iff[OF len, of ops] by blast
  from extract_point_some[OF len this, of i] True show ?thesis by blast
next
  case False
  assume len: "9 \<le> length row"
  from extract_point_skip[OF len False, of i] False show ?thesis by blast
qed

lemma length_valid_points:
  "\<forall>row\<in>set rs. 9 \<le> length row \<Longrightarrow>
     length (valid_points ops k rs) = length (filter (coords_parse ops) rs)"
proof (induction rs arbitrary: k)
  case Nil
  then show ?case by simp
next
  case (Cons row rs)
  then have len: "9 \<le> length row" by simp
  from extract_point_cases[OF len, of ops k] Cons show ?case by auto
qed

subsection \<open>The loop builds the grouped tree\<close>

lemma loop_grouped:
  "\<forall>row\<in>set rs. 9 \<le> length row \<Longrightarrow>
     loop ops k rs (grouped ops ps) = Inr (grouped ops (ps @ valid_points ops k rs))"
proof (induction rs arbitrary: k ps)
  case Nil
  then show ?case by simp
next
  case (Cons row rs)
  then have len: "9 \<le> length row" and rest: "\<forall>r\<in>set rs. 9 \<le> length r" by simp_all
  from extract_point_cases[OF len, of ops k] show ?case
  proof (elim disjE conjE exE)
    fix p
    assume e: "extract_point ops k row = Inr (Some p)"
    then show ?thesis
      using Cons.IH[OF rest, of "k + 1" "ps @ [p]"]
      by (simp add: body_def add_record_grouped)
  next
    assume e: "extract_point ops k row = Inr None"
    then show ?thesis
      using Cons.IH[OF rest, of "k + 1" ps] by (simp add: body_def)
  qed
qed

lemma grouped_Nil: "grouped ops [] = init_state"
  by (simp add: grouped_def init_state_def)

lemma rectangular_rows: "rectangular t \<Longrightarrow> 9 \<le> ncols t \<Longrightarrow> \<forall>row\<in>set (rows t). 9 \<le> length row"
  by (auto simp: rectangular_def list_all_iff)

lemma length_iterrows: "length (iterrows ops t) = length (rows t)"
  by (simp add: iterrows_def)

lemma iterrows_nth:
  "i < length (rows t) \<Longrightarrow>
     iterrows ops t ! i = rows t ! i \<or> iterrows ops t ! i = map (upcast ops) (rows t ! i)"
  by (simp add: iterrows_def)

lemma length_iterrows_nth:
  "i < length (rows t) \<Longrightarrow> length (iterrows ops t ! i) = length (rows t ! i)"
  using iterrows_nth[of i t ops] by auto

lemma iterrows_rows:
  "rectangular t \<Longrightarrow> 9 \<le> ncols t \<Longrightarrow> \<forall>row\<in>set (iterrows ops t). 9 \<le> length row"
  by (auto simp: iterrows_def rectangular_def list_all_iff)

lemma py_float_upcast: "py_float ops (upcast ops c) = py_float ops c"
  by (cases c) (simp_all add: upcast_def)

lemma notna_upcast: "notna (upcast ops c) = notna c"
  by (cases c) (simp_all add: upcast_def)

lemma iterrows_cell:
  assumes "i < length (rows t)" and "k < length (rows t ! i)"
  shows "py_float ops (iterrows ops t ! i ! k) = py_float ops (rows t ! i ! k)"
    and "notna (iterrows ops t ! i ! k) = notna (rows t ! i ! k)"
  using iterrows_nth[OF assms(1), of ops] assms(2)
  by (auto simp: py_float_upcast notna_upcast)

lemma main_generated:
  assumes "9 \<le> ncols t" and "rectangular t"
  shows "main ops t =
    Generated (kml_root (doc (grouped ops (valid_points ops 0 (iterrows ops t)))))
      \<lparr>total_rows = length (rows t),
       folder_count = length (first_seen (map folder_name (valid_points ops 0 (iterrows ops t)))),
       folder_names = first_seen (map folder_name (valid_points ops 0 (iterrows ops t)))\<rparr>"
proof -
  have "loop ops 0 (iterrows ops t) init_state =
      Inr (grouped ops (valid_points ops 0 (iterrows ops t)))"
    using loop_grouped[OF iterrows_rows[OF assms(2,1), of ops], of ops 0 "[]"]
    by (simp add: grouped_Nil)
  then show ?thesis
    using assms(1) by (simp add: main_def grouped_def Let_def)
qed

subsection \<open>Reading the grouped tree\<close>

lemma folders_of_kml_root:
  "\<forall>f\<in>set fs. tag f = ''Folder'' \<Longrightarrow> folders_of (kml_root fs) = fs"
  by (simp add: folders_of_def kml_root_def findall_def filter_id_conv)

lemma folders_of_grouped:
  "folders_of (kml_root (doc (grouped ops ps))) = doc (grouped ops ps)"
  by (rule folders_of_kml_root) (auto simp: grouped_def Let_def folder_elem_def)

lemma placemarks_of_folder_elem:
  "placemarks_of (folder_elem ops n ps) = map (placemark ops) ps"
  by (simp add: placemarks_of_def findall_def folder_elem_def placemark_def filter_id_conv)

lemma findtext_folder_elem: "findtext ''name'' (folder_elem ops n ps) = Some n"
  by (simp add: findtext_def findall_def folder_elem_def)

lemma sum_list_indicator:
  "distinct ns \<Longrightarrow> sum_list (map (\<lambda>n. if x = n then 1 else 0) ns) = (if x \<in> set ns then 1 else (0::nat))"
  by (induction ns) auto

lemma sum_length_filter:
  "distinct ns \<Longrightarrow> f ` set ps \<subseteq> set ns \<Longrightarrow>
     sum_list (map (\<lambda>n. length (filter (\<lambda>p. f p = n) ps)) ns) = length ps"
proof (induction ps)
  case Nil
  then show ?case by simp
next
  case (Cons p ps)
  have "sum_list (map (\<lambda>n. length (filter (\<lambda>q. f q = n) (p # ps))) ns)
      = sum_list (map (\<lambda>n. (if f p = n then 1 else 0) + length (filter (\<lambda>q. f q = n) ps)) ns)"
    by (intro arg_cong[where f = sum_list] map_cong) auto
  also have "\<dots> = sum_list (map (\<lambda>n. if f p = n then 1 else 0) ns)
      + sum_list (map (\<lambda>n. length (filter (\<lambda>q. f q = n) ps)) ns)"
    by (simp add: sum_list_addf)
  also have "\<dots> = 1 + length ps"
    using Cons by (simp add: sum_list_indicator)
  finally show ?case by simp
qed

lemma count_placemarks_grouped:
  "count_placemarks (kml_root (doc (grouped ops ps))) = length ps"
proof -
  have "count_placemarks (kml_root (doc (grouped ops ps)))
      = sum_list (map (\<lambda>n. length (filter (\<lambda>p. folder_name p = n) ps))
          (first_seen (map folder_name ps)))"
    by (simp add: count_placemarks_def folders_of_grouped)
       (simp add: grouped_def Let_def placemarks_of_folder_elem comp_def)
  also have "\<dots> = length ps"
    by (rule sum_length_filter) auto
  finally show ?thesis .
qed

subsection \<open>Membership of a row's record, and rows that agree on the columns read\<close>

lemma valid_points_mem:
  "i < length rs \<Longrightarrow> extract_point ops (k + i) (rs ! i) = Inr (Some p) \<Longrightarrow>
     p \<in> set (valid_points ops k rs)"
proof (induction rs arbitrary: k i)
  case Nil
  then show ?case by simp
next
  case (Cons row rs)
  show ?case
  proof (cases i)
    case 0
    with Cons.prems show ?thesis by simp
  next
    case (Suc j)
    with Cons.prems have "j < length rs" "extract_point ops (k + 1 + j) (rs ! j) = Inr (Some p)"
      by simp_all
    from Cons.IH[OF this] show ?thesis
      by (auto split: sum.splits option.splits)
  qed
qed

lemma extract_point_agree:
  assumes "agree_used r1 r2"
  shows "extract_point ops i r1 = extract_point ops i r2"
proof -
  from assms have h: "iloc r1 1 = iloc r2 1" "iloc r1 2 = iloc r2 2" "iloc r1 3 = iloc r2 3"
      "iloc r1 5 = iloc r2 5" "iloc r1 8 = iloc r2 8"
    by (simp_all add: agree_used_def)
  show ?thesis unfolding extract_point_def h ..
qed

lemma body_agree:
  "agree_used r1 r2 \<Longrightarrow> body ops i r1 s = body ops i r2 s"
  by (simp add: body_def extract_point_agree[of r1 r2])

lemma loop_agree:
  "list_all2 agree_used rs1 rs2 \<Longrightarrow> loop ops k rs1 s = loop ops k rs2 s"
proof (induction rs1 rs2 arbitrary: k s rule: list_all2_induct)
  case Nil
  then show ?case by simp
next
  case (Cons r1 rs1 r2 rs2)
  then show ?case
    by (simp add: body_def extract_point_agree[of r1 r2] split: sum.splits)
qed

subsection \<open>The decimal rendering of the row number\<close>

text \<open>\<open>show_nat n\<close> is the decimal numeral of \<open>n\<close>: reading it back gives \<open>n\<close>.\<close>

lemma digit_cases: "d < (10::nat) \<Longrightarrow> d \<in> {0, 1, 2, 3, 4, 5, 6, 7, 8, 9}"
  by auto

lemma digit_val: "d < 10 \<Longrightarrow> of_char (digit_chars ! d) - 48 = (d::nat)"
  by (drule digit_cases) (auto simp: digit_chars_def)

lemma digit_mem: "d < 10 \<Longrightarrow> digit_chars ! d \<in> set digit_chars"
  by (rule nth_mem) (simp add: digit_chars_def)

lemma show_nat_digits:
  "show_nat n \<noteq> [] \<and> list_all (\<lambda>c. c \<in> set digit_chars) (show_nat n) \<and>
   foldl (\<lambda>a c. 10 * a + (of_char c - 48)) 0 (show_nat n) = n"
proof (induction n rule: show_nat.induct)
  case (1 n)
  show ?case
  proof (cases "n < 10")
    case True
    then show ?thesis
      by (subst (1 2 3) show_nat.simps) (simp add: digit_val digit_mem)
  next
    case False
    with 1 have ih: "show_nat (n div 10) \<noteq> []"
      "list_all (\<lambda>c. c \<in> set digit_chars) (show_nat (n div 10))"
      "foldl (\<lambda>a c. 10 * a + (of_char c - 48)) 0 (show_nat (n div 10)) = n div 10"
      by simp_all
    have m: "n mod 10 < 10" by simp
    show ?thesis
      using False ih
      by (subst (1 2 3) show_nat.simps) (simp add: digit_val[OF m] digit_mem[OF m])
  qed
qed

lemma read_nat_show_nat: "read_nat (show_nat n) = Some n"
  using show_nat_digits[of n] by (simp add: read_nat_def)

subsection \<open>The record of a row is in the tree of the run\<close>

lemma valid_points_origin:
  "p \<in> set (valid_points ops k rs) \<Longrightarrow>
     \<exists>j<length rs. extract_point ops (k + j) (rs ! j) = Inr (Some p)"
proof (induction rs arbitrary: k)
  case Nil
  then show ?case by simp
next
  case (Cons row rs)
  show ?case
  proof (cases "extract_point ops k row = Inr (Some p)")
    case True
    then have "extract_point ops (k + 0) ((row # rs) ! 0) = Inr (Some p)" by simp
    then show ?thesis by blast
  next
    case False
    with Cons.prems have "p \<in> set (valid_points ops (k + 1) rs)"
      by (auto split: sum.splits option.splits)
    from Cons.IH[OF this] obtain j where
      j: "j < length rs" "extract_point ops (k + 1 + j) (rs ! j) = Inr (Some p)" by blast
    then have "Suc j < length (row # rs)"
      "extract_point ops (k + Suc j) ((row # rs) ! Suc j) = Inr (Some p)" by simp_all
    then show ?thesis by blast
  qed
qed

lemma row_placemark_in_tree:
  assumes "9 \<le> ncols t" and "rectangular t" and "i < length (rows t)"
    and "extract_point ops i (iterrows ops t ! i) = Inr (Some p)"
  shows "\<exists>kml st f. main ops t = Generated kml st \<and> f \<in> set (folders_of kml) \<and>
           findtext ''name'' f = Some (folder_name p) \<and>
           placemark ops p \<in> set (placemarks_of f)"
proof -
  let ?ps = "valid_points ops 0 (iterrows ops t)"
  have mem: "p \<in> set ?ps"
    using valid_points_mem[of i "iterrows ops t" ops 0 p] assms(3,4)
    by (simp add: length_iterrows)
  let ?f = "folder_elem ops (folder_name p) (filter (\<lambda>q. folder_name q = folder_name p) ?ps)"
  have "folder_name p \<in> set (first_seen (map folder_name ?ps))"
    using mem by simp
  then have "?f \<in> (\<lambda>n. folder_elem ops n (filter (\<lambda>q. folder_name q = n) ?ps)) `
      set (first_seen (map folder_name ?ps))"
    by (rule image_eqI[OF refl])
  moreover have d: "doc (grouped ops ?ps) =
      map (\<lambda>n. folder_elem ops n (filter (\<lambda>q. folder_name q = n) ?ps))
        (first_seen (map folder_name ?ps))"
    by (simp add: grouped_def Let_def)
  ultimately have "?f \<in> set (doc (grouped ops ?ps))"
    by (simp only: set_map)
  then have f1: "?f \<in> set (folders_of (kml_root (doc (grouped ops ?ps))))"
    by (simp only: folders_of_grouped)
  have f2: "findtext ''name'' ?f = Some (folder_name p)"
    by (rule findtext_folder_elem)
  have f3: "placemark ops p \<in> set (placemarks_of ?f)"
    using mem by (simp add: placemarks_of_folder_elem)
  show ?thesis
    using main_generated[OF assms(1,2), of ops] f1 f2 f3 by blast
qed

lemma row_extracts:
  assumes "9 \<le> ncols t" and "rectangular t" and "i < length (rows t)"
    and "py_float ops (rows t ! i ! 2) = Inr la" and "py_float ops (rows t ! i ! 3) = Inr lo"
  shows "extract_point ops i (iterrows ops t ! i) =
       Inr (Some \<lparr>nome = (if notna (rows t ! i ! 1) then py_str ops (iterrows ops t ! i ! 1)
                          else ''Ponto_'' @ show_nat (i + 1)),
                  lat = la, lon = lo,
                  folder_name = (if notna (rows t ! i ! 5) then py_str ops (iterrows ops t ! i ! 5)
                                 else ''Geral''),
                  description = (if notna (rows t ! i ! 8) then py_str ops (iterrows ops t ! i ! 8)
                                 else '''')\<rparr>)"
proof -
  have len: "9 \<le> length (rows t ! i)"
    using rectangular_rows[OF assms(2,1)] assms(3) by simp
  then have len': "9 \<le> length (iterrows ops t ! i)"
    using assms(3) by (simp add: length_iterrows_nth)
  have k: "1 < length (rows t ! i)" "2 < length (rows t ! i)" "3 < length (rows t ! i)"
    "5 < length (rows t ! i)" "8 < length (rows t ! i)"
    using len by simp_all
  have a: "py_float ops (iterrows ops t ! i ! 2) = Inr la"
    using iterrows_cell(1)[OF assms(3) k(2), of ops] assms(4) by simp
  have b: "py_float ops (iterrows ops t ! i ! 3) = Inr lo"
    using iterrows_cell(1)[OF assms(3) k(3), of ops] assms(5) by simp
  show ?thesis
    using extract_point_some[OF len' a b, of i]
    by (simp only: iterrows_cell(2)[OF assms(3) k(1)] iterrows_cell(2)[OF assms(3) k(4)]
        iterrows_cell(2)[OF assms(3) k(5)])
qed

subsection \<open>What the loop counts, and what it does not read\<close>

text \<open>
  The number of Placemark elements of a run is the number of rows on which the test of the
  code succeeds; and two tables whose rows, as the loop receives them, agree on the columns
  read end in the same outcome.
\<close>

lemma placemark_count_eq_converting_rows:
  assumes "9 \<le> ncols t" and "rectangular t"
  shows "\<exists>kml st. main ops t = Generated kml st \<and>
           count_placemarks kml = length (filter (coords_parse ops) (iterrows ops t))"
  using main_generated[OF assms, of ops]
  by (simp add: count_placemarks_grouped length_valid_points[OF iterrows_rows[OF assms(2,1)]])

lemma agreeing_rows_same_outcome:
  assumes "list_all2 agree_used (iterrows ops t1) (iterrows ops t2)"
    and "9 \<le> ncols t1" and "9 \<le> ncols t2"
  shows "main ops t1 = main ops t2"
proof -
  have "length (iterrows ops t1) = length (iterrows ops t2)"
    using assms(1) by (rule list_all2_lengthD)
  then have l: "length (rows t1) = length (rows t2)"
    by (simp add: length_iterrows)
  have lp: "loop ops 0 (iterrows ops t1) init_state = loop ops 0 (iterrows ops t2) init_state"
    using assms(1) by (rule loop_agree)
  show ?thesis
    unfolding main_def l lp using assms(2,3) by simp
qed

section \<open>The claims\<close>

text \<open>
  C1. The number of Placemark elements of a run is not the number of rows whose latitude
  and longitude are numbers: the run on the single row whose latitude cell is empty, which
  arrives as the float NaN, produces one Placemark, and the table has no row with a finite
  latitude and longitude.
\<close>

theorem empty_latitude_row_is_counted:
  "(\<exists>kml st. main whole_ops
       \<lparr>ncols = 9,
        rows = [[CInt 1, CStr ''Pt X'', CFloat NaN, CFloat (Fin (- 46)), CNone, CStr ''SP'',
                 CNone, CNone, CFloat NaN]]\<rparr> = Generated kml st \<and>
     count_placemarks kml = 1) \<and>
   length (filter (finite_coords whole_ops)
     [[CInt 1, CStr ''Pt X'', CFloat NaN, CFloat (Fin (- 46)), CNone, CStr ''SP'',
       CNone, CNone, CFloat NaN]]) = 0"
proof -
  let ?kml = "Element ''kml'' [(''xmlns'', ''http://www.opengis.net/kml/2.2'')] None
          [Element ''Document'' [] None
             [Element ''Folder'' [] None
                [Element ''name'' [] (Some ''SP'') [],
                 Element ''Placemark'' [] None
                   [Element ''name'' [] (Some ''Pt X'') [],
                    Element ''Point'' [] None
                      [Element ''coordinates'' [] (Some ''-46.0,nan,0'') []]]]]]"
  have m: "main whole_ops
       \<lparr>ncols = 9,
        rows = [[CInt 1, CStr ''Pt X'', CFloat NaN, CFloat (Fin (- 46)), CNone, CStr ''SP'',
                 CNone, CNone, CFloat NaN]]\<rparr> =
     Generated ?kml \<lparr>total_rows = 1, folder_count = 1, folder_names = [''SP'']\<rparr>"
    by code_simp
  have c: "count_placemarks ?kml = 1" by code_simp
  have f: "length (filter (finite_coords whole_ops)
     [[CInt 1, CStr ''Pt X'', CFloat NaN, CFloat (Fin (- 46)), CNone, CStr ''SP'',
       CNone, CNone, CFloat NaN]]) = 0" by code_simp
  from m c f show ?thesis by blast
qed

text \<open>
  C2. In the tree of a run the folder names are pairwise different and are the distinct
  folder names of the records of the rows in the order of their first appearance; names are
  compared as strings, character by character. The placemarks of a folder are those of the
  records carrying its name, in row order. The dictionary keys reported in the statistics
  are the same list.
\<close>

theorem folders_unique_first_seen_order:
  assumes "9 \<le> ncols t" and "rectangular t"
  shows "\<exists>kml st. main ops t = Generated kml st \<and>
           distinct (map (findtext ''name'') (folders_of kml)) \<and>
           map (findtext ''name'') (folders_of kml) =
             map Some (first_seen (map folder_name (valid_points ops 0 (iterrows ops t)))) \<and>
           map placemarks_of (folders_of kml) =
             map (\<lambda>n. map (placemark ops)
                        (filter (\<lambda>p. folder_name p = n) (valid_points ops 0 (iterrows ops t))))
               (first_seen (map folder_name (valid_points ops 0 (iterrows ops t)))) \<and>
           folder_names st = first_seen (map folder_name (valid_points ops 0 (iterrows ops t)))"
proof -
  let ?ps = "valid_points ops 0 (iterrows ops t)"
  let ?kml = "kml_root (doc (grouped ops ?ps))"
  have names: "map (findtext ''name'') (folders_of ?kml) = map Some (first_seen (map folder_name ?ps))"
    by (simp add: folders_of_grouped) (simp add: grouped_def Let_def findtext_folder_elem comp_def)
  have "distinct (map Some (first_seen (map folder_name ?ps)))"
    by (simp add: distinct_map)
  then have dist: "distinct (map (findtext ''name'') (folders_of ?kml))"
    by (simp only: names)
  have pms: "map placemarks_of (folders_of ?kml) =
      map (\<lambda>n. map (placemark ops) (filter (\<lambda>p. folder_name p = n) ?ps))
        (first_seen (map folder_name ?ps))"
    by (simp add: folders_of_grouped) (simp add: grouped_def Let_def placemarks_of_folder_elem comp_def)
  show ?thesis
    using main_generated[OF assms, of ops] names dist pms by simp
qed

theorem folders_unique_first_seen_order_witness:
  "9 \<le> ncols sample_table \<and> rectangular sample_table \<and>
   first_seen (map folder_name (valid_points whole_ops 0 (iterrows whole_ops sample_table)))
     = [''SP'', ''Geral''] \<and>
   map nome (filter (\<lambda>p. folder_name p = ''SP'')
               (valid_points whole_ops 0 (iterrows whole_ops sample_table)))
     = [''Pt A'', ''Pt D''] \<and>
   (\<exists>kml st. main whole_ops sample_table = Generated kml st \<and>
      map (findtext ''name'') (folders_of kml) = [Some ''SP'', Some ''Geral''] \<and>
      folder_names st = [''SP'', ''Geral''])"
proof -
  have c: "9 \<le> ncols sample_table" by (simp add: sample_table_def)
  have r: "rectangular sample_table" by code_simp
  have n: "first_seen (map folder_name (valid_points whole_ops 0 (iterrows whole_ops sample_table)))
      = [''SP'', ''Geral'']"
    by code_simp
  have m: "map nome (filter (\<lambda>p. folder_name p = ''SP'')
               (valid_points whole_ops 0 (iterrows whole_ops sample_table)))
     = [''Pt A'', ''Pt D'']"
    by code_simp
  from folders_unique_first_seen_order [OF c r, of whole_ops] obtain kml st where
    "main whole_ops sample_table = Generated kml st"
    "map (findtext ''name'') (folders_of kml) =
       map Some (first_seen (map folder_name
         (valid_points whole_ops 0 (iterrows whole_ops sample_table))))"
    "folder_names st = first_seen (map folder_name
         (valid_points whole_ops 0 (iterrows whole_ops sample_table)))"
    by blast
  then show ?thesis using c r n m by simp
qed

text \<open>
  C3. The loop keeps a row exactly when \<open>float()\<close> returns on both coordinate cells, and
  \<open>float()\<close> returns on the float NaN, which is what an empty spreadsheet cell arrives as. A
  row with an empty latitude is therefore not skipped: it creates its folder and a Placemark
  whose coordinates text contains \<open>nan\<close>. The run below has that single row.
\<close>

theorem empty_latitude_row_is_kept:
  "main whole_ops
     \<lparr>ncols = 9,
      rows = [[CInt 1, CStr ''Pt X'', CFloat NaN, CFloat (Fin (- 46)), CNone, CStr ''SP'',
               CNone, CNone, CFloat NaN]]\<rparr> =
     Generated
       (Element ''kml'' [(''xmlns'', ''http://www.opengis.net/kml/2.2'')] None
          [Element ''Document'' [] None
             [Element ''Folder'' [] None
                [Element ''name'' [] (Some ''SP'') [],
                 Element ''Placemark'' [] None
                   [Element ''name'' [] (Some ''Pt X'') [],
                    Element ''Point'' [] None
                      [Element ''coordinates'' [] (Some ''-46.0,nan,0'') []]]]]])
       \<lparr>total_rows = 1, folder_count = 1, folder_names = [''SP'']\<rparr>"
  by code_simp

text \<open>
  C4. In a run on a table that passes the column check, the row at position \<open>i\<close> whose
  cells 2 and 3 convert to \<open>la\<close> and \<open>lo\<close> has its Placemark in a folder of the tree, and
  the text of the \<open>coordinates\<close> element of that Placemark is the longitude, a comma, the
  latitude, and \<open>,0\<close>. Every Placemark of the tree is the Placemark of a record of the
  run and carries the coordinates of that record in this form.
\<close>

theorem coordinates_lon_lat_zero:
  assumes "9 \<le> ncols t" and "rectangular t" and "i < length (rows t)"
    and "py_float ops (rows t ! i ! 2) = Inr la" and "py_float ops (rows t ! i ! 3) = Inr lo"
  shows "\<exists>kml st p f. main ops t = Generated kml st \<and>
           extract_point ops i (iterrows ops t ! i) = Inr (Some p) \<and>
           lat p = la \<and> lon p = lo \<and>
           f \<in> set (folders_of kml) \<and> placemark ops p \<in> set (placemarks_of f) \<and>
           coordinates_text (placemark ops p) =
             Some (float_str ops lo @ '','' @ float_str ops la @ '',0'') \<and>
           (\<forall>g\<in>set (folders_of kml). \<forall>pm\<in>set (placemarks_of g).
              \<exists>q\<in>set (valid_points ops 0 (iterrows ops t)).
                pm = placemark ops q \<and>
                coordinates_text pm =
                  Some (float_str ops (lon q) @ '','' @ float_str ops (lat q) @ '',0''))"
proof -
  let ?ps = "valid_points ops 0 (iterrows ops t)"
  from row_extracts[OF assms, of ] obtain p where
    p: "extract_point ops i (iterrows ops t ! i) = Inr (Some p)" "lat p = la" "lon p = lo"
    by simp
  have c: "\<And>q. coordinates_text (placemark ops q) =
      Some (float_str ops (lon q) @ '','' @ float_str ops (lat q) @ '',0'')"
    by (simp add: coordinates_text_def findall_def findtext_def placemark_def)
  from row_placemark_in_tree[OF assms(1,2,3) p(1)] obtain kml st f where
    m: "main ops t = Generated kml st" "f \<in> set (folders_of kml)"
       "placemark ops p \<in> set (placemarks_of f)"
    by blast
  have kml: "kml = kml_root (doc (grouped ops ?ps))"
    using m(1) main_generated[OF assms(1,2), of ops] by simp
  have all: "\<forall>g\<in>set (folders_of kml). \<forall>pm\<in>set (placemarks_of g).
      \<exists>q\<in>set ?ps. pm = placemark ops q \<and>
        coordinates_text pm = Some (float_str ops (lon q) @ '','' @ float_str ops (lat q) @ '',0'')"
  proof (intro ballI)
    fix g pm
    assume g: "g \<in> set (folders_of kml)" and pm: "pm \<in> set (placemarks_of g)"
    from g obtain n where
      "g = folder_elem ops n (filter (\<lambda>q. folder_name q = n) ?ps)"
      unfolding kml folders_of_grouped by (auto simp: grouped_def Let_def)
    with pm obtain q where "q \<in> set ?ps" "pm = placemark ops q"
      by (auto simp: placemarks_of_folder_elem)
    then show "\<exists>q\<in>set ?ps. pm = placemark ops q \<and>
        coordinates_text pm = Some (float_str ops (lon q) @ '','' @ float_str ops (lat q) @ '',0'')"
      using c by blast
  qed
  show ?thesis
    using m p c[of p] all by blast
qed

theorem coordinates_lon_lat_zero_witness:
  "9 \<le> ncols sample_table \<and> rectangular sample_table \<and> 0 < length (rows sample_table) \<and>
   py_float whole_ops (rows sample_table ! 0 ! 2) = Inr (Fin (- 23)) \<and>
   py_float whole_ops (rows sample_table ! 0 ! 3) = Inr (Fin (- 46)) \<and>
   (\<exists>kml st p f. main whole_ops sample_table = Generated kml st \<and>
      extract_point whole_ops 0 (iterrows whole_ops sample_table ! 0) = Inr (Some p) \<and>
      f \<in> set (folders_of kml) \<and> placemark whole_ops p \<in> set (placemarks_of f) \<and>
      coordinates_text (placemark whole_ops p) = Some ''-46.0,-23.0,0'')"
proof -
  have c: "9 \<le> ncols sample_table" by (simp add: sample_table_def)
  have r: "rectangular sample_table" by code_simp
  have i: "0 < length (rows sample_table)" by code_simp
  have a: "py_float whole_ops (rows sample_table ! 0 ! 2) = Inr (Fin (- 23))" by code_simp
  have b: "py_float whole_ops (rows sample_table ! 0 ! 3) = Inr (Fin (- 46))" by code_simp
  have s: "float_str whole_ops (Fin (- 46)) @ '','' @ float_str whole_ops (Fin (- 23)) @ '',0''
      = ''-46.0,-23.0,0''" by code_simp
  from coordinates_lon_lat_zero [OF c r i a b] have
    "\<exists>kml st p f. main whole_ops sample_table = Generated kml st \<and>
      extract_point whole_ops 0 (iterrows whole_ops sample_table ! 0) = Inr (Some p) \<and>
      f \<in> set (folders_of kml) \<and> placemark whole_ops p \<in> set (placemarks_of f) \<and>
      coordinates_text (placemark whole_ops p) = Some ''-46.0,-23.0,0''"
    unfolding s by blast
  with c r i a b show ?thesis by blast
qed

text \<open>
  C5. The placeholder the source generates is \<open>Ponto_\<close> followed by the row number counted
  from one, not \<open>Point_\<close>: the third row of the sample table, whose name cell is empty, is
  named \<open>Ponto_3\<close>.
\<close>

theorem placeholder_is_Ponto_not_Point:
  "extract_point whole_ops 2 (sample_rows ! 2) =
     Inr (Some \<lparr>nome = ''Ponto_3'', lat = Fin (- 15), lon = Fin (- 47),
                folder_name = ''Geral'', description = ''''\<rparr>) \<and>
   \<not> notna (sample_rows ! 2 ! 1) \<and> ''Ponto_3'' \<noteq> ''Point_3''"
  by code_simp

text \<open>
  C5, as the source has it. In a run on a table that passes the column check, the row at
  position \<open>i\<close> (counted from zero) whose coordinates convert and whose name cell is missing
  (NaN, \<open>None\<close> or \<open>NaT\<close>, the values \<open>pd.notna\<close> rejects) has its Placemark in a folder of
  the tree, and the name of that Placemark is \<open>Ponto_\<close> followed by the decimal numeral of
  \<open>i + 1\<close>.
\<close>

theorem missing_name_placeholder:
  assumes "9 \<le> ncols t" and "rectangular t" and "i < length (rows t)"
    and "coords_parse ops (rows t ! i)" and "\<not> notna (rows t ! i ! 1)"
  shows "\<exists>kml st p f. main ops t = Generated kml st \<and>
           extract_point ops i (iterrows ops t ! i) = Inr (Some p) \<and>
           nome p = ''Ponto_'' @ show_nat (i + 1) \<and>
           f \<in> set (folders_of kml) \<and> placemark ops p \<in> set (placemarks_of f) \<and>
           findtext ''name'' (placemark ops p) = Some (''Ponto_'' @ show_nat (i + 1))"
proof -
  have len: "9 \<le> length (rows t ! i)"
    using rectangular_rows[OF assms(2,1)] assms(3) by simp
  from assms(4) obtain la lo where
    "py_float ops (rows t ! i ! 2) = Inr la" "py_float ops (rows t ! i ! 3) = Inr lo"
    using coords_parse_iff[OF len, of ops] by blast
  from row_extracts[OF assms(1,2,3) this] assms(5) obtain p where
    p: "extract_point ops i (iterrows ops t ! i) = Inr (Some p)"
       "nome p = ''Ponto_'' @ show_nat (i + 1)"
    by simp
  have n: "findtext ''name'' (placemark ops p) = Some (nome p)"
    by (simp add: findtext_def findall_def placemark_def)
  from row_placemark_in_tree[OF assms(1,2,3) p(1)] p n show ?thesis
    by (metis (no_types, lifting))
qed

theorem missing_name_placeholder_witness:
  "9 \<le> ncols sample_table \<and> rectangular sample_table \<and> 2 < length (rows sample_table) \<and>
   coords_parse whole_ops (rows sample_table ! 2) \<and> \<not> notna (rows sample_table ! 2 ! 1) \<and>
   (\<exists>kml st p f. main whole_ops sample_table = Generated kml st \<and>
      extract_point whole_ops 2 (iterrows whole_ops sample_table ! 2) = Inr (Some p) \<and>
      nome p = ''Ponto_3'' \<and>
      f \<in> set (folders_of kml) \<and> placemark whole_ops p \<in> set (placemarks_of f) \<and>
      findtext ''name'' (placemark whole_ops p) = Some ''Ponto_3'')"
proof -
  have c: "9 \<le> ncols sample_table" by (simp add: sample_table_def)
  have r: "rectangular sample_table" by code_simp
  have i: "2 < length (rows sample_table)" by code_simp
  have p: "coords_parse whole_ops (rows sample_table ! 2)" by code_simp
  have e: "\<not> notna (rows sample_table ! 2 ! 1)" by code_simp
  have s: "''Ponto_'' @ show_nat (2 + 1) = ''Ponto_3''" by code_simp
  from missing_name_placeholder [OF c r i p e, of ] c r i p e show ?thesis
    unfolding s by blast
qed

text \<open>
  C6. The default folder name of the source is \<open>Geral\<close>, not \<open>General\<close>: a run on the one
  row of the sample table whose folder cell is empty puts its Placemark in a folder named
  \<open>Geral\<close>.
\<close>

theorem default_folder_is_Geral_not_General:
  "main whole_ops \<lparr>ncols = 9, rows = [sample_rows ! 2]\<rparr> =
     Generated
       (Element ''kml'' [(''xmlns'', ''http://www.opengis.net/kml/2.2'')] None
          [Element ''Document'' [] None
             [Element ''Folder'' [] None
                [Element ''name'' [] (Some ''Geral'') [],
                 Element ''Placemark'' [] None
                   [Element ''name'' [] (Some ''Ponto_1'') [],
                    Element ''Point'' [] None
                      [Element ''coordinates'' [] (Some ''-47.0,-15.0,0'') []]]]]])
       \<lparr>total_rows = 1, folder_count = 1, folder_names = [''Geral'']\<rparr> \<and>
   \<not> notna (sample_rows ! 2 ! 5) \<and> ''Geral'' \<noteq> ''General''"
  by code_simp

text \<open>
  C6, as the source has it. In a run on a table that passes the column check, a row whose
  coordinates convert and whose folder cell is missing has its Placemark among the
  placemarks of a folder of the tree whose name is \<open>Geral\<close>.
\<close>

theorem missing_folder_default:
  assumes "9 \<le> ncols t" and "rectangular t" and "i < length (rows t)"
    and "coords_parse ops (rows t ! i)" and "\<not> notna (rows t ! i ! 5)"
  shows "\<exists>kml st p f. main ops t = Generated kml st \<and>
           extract_point ops i (iterrows ops t ! i) = Inr (Some p) \<and> folder_name p = ''Geral'' \<and>
           f \<in> set (folders_of kml) \<and> findtext ''name'' f = Some ''Geral'' \<and>
           placemark ops p \<in> set (placemarks_of f)"
proof -
  have len: "9 \<le> length (rows t ! i)"
    using rectangular_rows[OF assms(2,1)] assms(3) by simp
  from assms(4) obtain la lo where
    "py_float ops (rows t ! i ! 2) = Inr la" "py_float ops (rows t ! i ! 3) = Inr lo"
    using coords_parse_iff[OF len, of ops] by blast
  from row_extracts[OF assms(1,2,3) this] assms(5) obtain p where
    p: "extract_point ops i (iterrows ops t ! i) = Inr (Some p)" "folder_name p = ''Geral''"
    by simp
  from row_placemark_in_tree[OF assms(1,2,3) p(1)] p show ?thesis
    by (metis (no_types, lifting))
qed

theorem missing_folder_default_witness:
  "9 \<le> ncols sample_table \<and> rectangular sample_table \<and> 2 < length (rows sample_table) \<and>
   coords_parse whole_ops (rows sample_table ! 2) \<and> \<not> notna (rows sample_table ! 2 ! 5) \<and>
   (\<exists>kml st p f. main whole_ops sample_table = Generated kml st \<and>
      extract_point whole_ops 2 (iterrows whole_ops sample_table ! 2) = Inr (Some p) \<and>
      folder_name p = ''Geral'' \<and>
      f \<in> set (folders_of kml) \<and> findtext ''name'' f = Some ''Geral'' \<and>
      placemark whole_ops p \<in> set (placemarks_of f))"
proof -
  have c: "9 \<le> ncols sample_table" by (simp add: sample_table_def)
  have r: "rectangular sample_table" by code_simp
  have i: "2 < length (rows sample_table)" by code_simp
  have p: "coords_parse whole_ops (rows sample_table ! 2)" by code_simp
  have e: "\<not> notna (rows sample_table ! 2 ! 5)" by code_simp
  from missing_folder_default [OF c r i p e] c r i p e show ?thesis by blast
qed

text \<open>
  C7. A table with fewer than nine columns is rejected: the run ends in the one outcome
  \<open>Rejected\<close>, whatever its rows are, so no row is examined and no tree, complete or
  partial, is produced.
\<close>

theorem too_few_columns_rejected:
  "ncols t < 9 \<Longrightarrow> main ops t = Rejected"
  by (simp add: main_def)

theorem too_few_columns_rejected_witness:
  "ncols \<lparr>ncols = 8, rows = map (take 8) sample_rows\<rparr> < 9 \<and>
   main whole_ops \<lparr>ncols = 8, rows = map (take 8) sample_rows\<rparr> = Rejected"
  using too_few_columns_rejected [of "\<lparr>ncols = 8, rows = map (take 8) sample_rows\<rparr>" whole_ops]
  by simp

text \<open>
  C8. In a run on a table that passes the column check, the row at position \<open>i\<close> whose
  coordinates convert has its Placemark in a folder of the tree; the description of its
  record is \<open>str()\<close> of the cell at position 8 as the loop receives it, or the empty string
  when that cell is missing; and the Placemark has a \<open>description\<close> child exactly when
  that description is not empty: one child carrying the description as text, and none
  otherwise.
\<close>

theorem description_iff_nonempty:
  assumes "9 \<le> ncols t" and "rectangular t" and "i < length (rows t)"
    and "coords_parse ops (rows t ! i)"
  shows "\<exists>kml st p f. main ops t = Generated kml st \<and>
           extract_point ops i (iterrows ops t ! i) = Inr (Some p) \<and>
           description p =
             (if notna (rows t ! i ! 8) then py_str ops (iterrows ops t ! i ! 8) else '''') \<and>
           f \<in> set (folders_of kml) \<and> placemark ops p \<in> set (placemarks_of f) \<and>
           has_description (placemark ops p) = (description p \<noteq> '''') \<and>
           findall ''description'' (placemark ops p) =
             (if description p = '''' then []
              else [Element ''description'' [] (Some (description p)) []])"
proof -
  have len: "9 \<le> length (rows t ! i)"
    using rectangular_rows[OF assms(2,1)] assms(3) by simp
  from assms(4) obtain la lo where
    "py_float ops (rows t ! i ! 2) = Inr la" "py_float ops (rows t ! i ! 3) = Inr lo"
    using coords_parse_iff[OF len, of ops] by blast
  from row_extracts[OF assms(1,2,3) this] obtain p where
    p: "extract_point ops i (iterrows ops t ! i) = Inr (Some p)"
       "description p =
          (if notna (rows t ! i ! 8) then py_str ops (iterrows ops t ! i ! 8) else '''')"
    by simp
  have d: "findall ''description'' (placemark ops p) =
      (if description p = '''' then []
       else [Element ''description'' [] (Some (description p)) []])"
    by (simp add: findall_def placemark_def)
  then have h: "has_description (placemark ops p) = (description p \<noteq> '''')"
    by (simp add: has_description_def)
  from row_placemark_in_tree[OF assms(1,2,3) p(1)] p d h show ?thesis
    by (metis (no_types, lifting))
qed

theorem description_iff_nonempty_witness:
  "9 \<le> ncols sample_table \<and> rectangular sample_table \<and>
   0 < length (rows sample_table) \<and> coords_parse whole_ops (rows sample_table ! 0) \<and>
   2 < length (rows sample_table) \<and> coords_parse whole_ops (rows sample_table ! 2) \<and>
   (\<exists>kml st p f. main whole_ops sample_table = Generated kml st \<and>
      extract_point whole_ops 0 (iterrows whole_ops sample_table ! 0) = Inr (Some p) \<and>
      description p = ''desc1'' \<and>
      f \<in> set (folders_of kml) \<and> placemark whole_ops p \<in> set (placemarks_of f) \<and>
      has_description (placemark whole_ops p) \<and>
      findall ''description'' (placemark whole_ops p) =
        [Element ''description'' [] (Some ''desc1'') []]) \<and>
   (\<exists>kml st p f. main whole_ops sample_table = Generated kml st \<and>
      extract_point whole_ops 2 (iterrows whole_ops sample_table ! 2) = Inr (Some p) \<and>
      description p = '''' \<and>
      f \<in> set (folders_of kml) \<and> placemark whole_ops p \<in> set (placemarks_of f) \<and>
      \<not> has_description (placemark whole_ops p) \<and>
      findall ''description'' (placemark whole_ops p) = [])"
proof -
  have c: "9 \<le> ncols sample_table" by (simp add: sample_table_def)
  have r: "rectangular sample_table" by code_simp
  have i0: "0 < length (rows sample_table)" by code_simp
  have p0: "coords_parse whole_ops (rows sample_table ! 0)" by code_simp
  have i2: "2 < length (rows sample_table)" by code_simp
  have p2: "coords_parse whole_ops (rows sample_table ! 2)" by code_simp
  have d0: "(if notna (rows sample_table ! 0 ! 8)
             then py_str whole_ops (iterrows whole_ops sample_table ! 0 ! 8) else '''') = ''desc1''"
    by code_simp
  have d2: "(if notna (rows sample_table ! 2 ! 8)
             then py_str whole_ops (iterrows whole_ops sample_table ! 2 ! 8) else '''') = ''''"
    by code_simp
  from description_iff_nonempty [OF c r i0 p0] have a:
    "\<exists>kml st p f. main whole_ops sample_table = Generated kml st \<and>
      extract_point whole_ops 0 (iterrows whole_ops sample_table ! 0) = Inr (Some p) \<and>
      description p = ''desc1'' \<and>
      f \<in> set (folders_of kml) \<and> placemark whole_ops p \<in> set (placemarks_of f) \<and>
      has_description (placemark whole_ops p) \<and>
      findall ''description'' (placemark whole_ops p) =
        [Element ''description'' [] (Some ''desc1'') []]"
    unfolding d0 by (elim exE conjE) (intro exI conjI, assumption+, simp_all)
  from description_iff_nonempty [OF c r i2 p2] have b:
    "\<exists>kml st p f. main whole_ops sample_table = Generated kml st \<and>
      extract_point whole_ops 2 (iterrows whole_ops sample_table ! 2) = Inr (Some p) \<and>
      description p = '''' \<and>
      f \<in> set (folders_of kml) \<and> placemark whole_ops p \<in> set (placemarks_of f) \<and>
      \<not> has_description (placemark whole_ops p) \<and>
      findall ''description'' (placemark whole_ops p) = []"
    unfolding d2 by (elim exE conjE) (intro exI conjI, assumption+, simp_all)
  from c r i0 p0 i2 p2 a b show ?thesis by blast
qed


end
